theory Spec2Isabelle
  imports Complex_Main "HOL-Library.Sublist"
begin

section \<open>Strings\<close>

text \<open>
  A JavaScript string is a sequence of UTF-16 code units. The model keeps the code units
  below 256 (the Latin-1 range), one \<^typ>\<open>char\<close> each, and is exact on that range:
  \<open>isWhiteSpace\<close> holds the members of the regular-expression class \<open>\s\<close> below 256
  (which are also the characters that \<open>trim\<close> removes), and \<open>lowerChar\<close> is
  \<open>toLowerCase\<close> on one code unit: A..Z and the capital letters 0xC0..0xDE (without the
  multiplication sign 0xD7) move up by 32, which sets bit 5.
\<close>

definition isWhiteSpace :: "char \<Rightarrow> bool" where
  "isWhiteSpace c =
     (c \<in> set [CHR 0x09, CHR 0x0A, CHR 0x0B, CHR 0x0C, CHR 0x0D, CHR 0x20, CHR 0xA0])"

definition lowerChar :: "char \<Rightarrow> char" where
  "lowerChar c =
     (let n = (of_char c :: nat) in
      if (65 \<le> n \<and> n \<le> 90) \<or> (192 \<le> n \<and> n \<le> 222 \<and> n \<noteq> 215)
      then (case c of Char b0 b1 b2 b3 b4 b5 b6 b7 \<Rightarrow> Char b0 b1 b2 b3 b4 True b6 b7)
      else c)"

definition toLowerCase :: "string \<Rightarrow> string" where
  "toLowerCase s = map lowerChar s"

definition trim :: "string \<Rightarrow> string" where
  "trim s = rev (dropWhile isWhiteSpace (rev (dropWhile isWhiteSpace s)))"

text \<open>
  \<open>s.split(/\s+/)\<close>: the string is cut at every maximal run of white space. A run at
  the start or at the end leaves an empty first or last piece, and the empty string
  gives one empty piece.
\<close>

function split_ws :: "string \<Rightarrow> string list" where
  "split_ws s =
     (case dropWhile (\<lambda>c. \<not> isWhiteSpace c) s of
        [] \<Rightarrow> [s]
      | sep # rest \<Rightarrow>
          takeWhile (\<lambda>c. \<not> isWhiteSpace c) s # split_ws (dropWhile isWhiteSpace rest))"
  by pat_completeness auto
termination
proof (relation "measure length", simp, simp)
  fix s :: string and sep rest
  assume h: "dropWhile (\<lambda>c. \<not> isWhiteSpace c) s = sep # rest"
  have "length (dropWhile isWhiteSpace rest) \<le> length rest"
    by (rule length_dropWhile_le)
  moreover have "length (sep # rest) \<le> length s"
    using length_dropWhile_le [of "\<lambda>c. \<not> isWhiteSpace c" s] h by simp
  ultimately show "length (dropWhile isWhiteSpace rest) < length s"
    by simp
qed

declare split_ws.simps [simp del]

text \<open>\<open>s.includes(k)\<close>: \<open>k\<close> starts at some position of \<open>s\<close>.\<close>

fun str_includes :: "string \<Rightarrow> string \<Rightarrow> bool" where
  "str_includes [] k = (k = [])"
| "str_includes (c # cs) k = (prefix k (c # cs) \<or> str_includes cs k)"

text \<open>A string is truthy in a JavaScript condition when it is not empty.\<close>

definition truthy :: "string option \<Rightarrow> bool" where
  "truthy v = (case v of None \<Rightarrow> False | Some s \<Rightarrow> s \<noteq> [])"

section \<open>Rule data model\<close>

text \<open>
  Amounts are the numbers of the decimal(15,2) columns, modelled as rationals (NaN and
  the infinities are outside the model); a nullable bound is an option. Timestamps are milliseconds since the epoch. The relations
  \<open>keywords\<close> (here \<open>rule_keywords\<close>) and \<open>category\<close> are absent when they were not loaded.
\<close>

text \<open>The member \<open>ALL\<close> of the enum \<open>TransactionType\<close> is written \<open>ALL_TYPES\<close>.\<close>

datatype TransactionType = DEPOSIT | WITHDRAWAL | ALL_TYPES

datatype KeywordType = INCLUDE | EXCLUDE

record RuleKeyword =
  keyword_id :: int
  keyword :: string
  keyword_type :: KeywordType

record Category =
  category_name :: string

record ClassificationRule =
  rule_id :: int
  company_id :: string
  category_id :: string
  min_amount :: "rat option"
  max_amount :: "rat option"
  transaction_type :: TransactionType
  priority :: int
  is_active :: bool
  category :: "Category option"
  rule_keywords :: "RuleKeyword list option"

record TransactionData =
  description :: string
  depositAmount :: rat
  withdrawalAmount :: rat
  transactionDate :: int
  branch :: "string option"

record ClassificationResult =
  isClassified :: bool
  categoryId :: "string option"
  categoryName :: "string option"
  ruleId :: "int option"
  matchedKeywords :: "string list option"
  reason :: "string option"
  actualCompanyId :: "string option"

record ClassificationContext =
  companyId :: string
  transactionData :: TransactionData
  userType :: "string option"

section \<open>Matcher\<close>

definition checkTransactionType :: "TransactionData \<Rightarrow> TransactionType \<Rightarrow> bool" where
  "checkTransactionType td ruleTransactionType =
     (if ruleTransactionType = ALL_TYPES then True
      else
        let isDeposit = depositAmount td > 0;
            isWithdrawal = withdrawalAmount td > 0
        in (case ruleTransactionType of
              DEPOSIT \<Rightarrow> isDeposit \<and> \<not> isWithdrawal
            | WITHDRAWAL \<Rightarrow> isWithdrawal \<and> \<not> isDeposit
            | ALL_TYPES \<Rightarrow> True))"

definition checkAmountRange :: "TransactionData \<Rightarrow> ClassificationRule \<Rightarrow> bool" where
  "checkAmountRange td rule =
     (let transactionAmount = max (depositAmount td) (withdrawalAmount td) in
      if (case min_amount rule of None \<Rightarrow> False | Some lo \<Rightarrow> transactionAmount < lo)
      then False
      else if (case max_amount rule of None \<Rightarrow> False | Some hi \<Rightarrow> transactionAmount > hi)
      then False
      else True)"

definition isKeywordMatch :: "string \<Rightarrow> string \<Rightarrow> bool" where
  "isKeywordMatch desc kw =
     (let words = split_ws desc in
      if list_ex (\<lambda>word. word = kw) words then True
      else str_includes desc kw)"

text \<open>
  The two loops of \<open>checkKeywordMatching\<close> return at the first keyword that matches:
  \<open>anyKeywordMatch\<close> is that loop, over the lower-cased and trimmed keyword texts.
\<close>

fun anyKeywordMatch :: "string \<Rightarrow> RuleKeyword list \<Rightarrow> bool" where
  "anyKeywordMatch desc [] = False"
| "anyKeywordMatch desc (k # ks) =
     (if isKeywordMatch desc (trim (toLowerCase (keyword k))) then True
      else anyKeywordMatch desc ks)"

definition checkKeywordMatching :: "TransactionData \<Rightarrow> ClassificationRule \<Rightarrow> bool" where
  "checkKeywordMatching td rule =
     (case rule_keywords rule of
        None \<Rightarrow> True
      | Some kws \<Rightarrow>
          if kws = [] then True
          else
            let desc = trim (toLowerCase (description td));
                includeKeywords = filter (\<lambda>k. keyword_type k = INCLUDE) kws;
                excludeKeywords = filter (\<lambda>k. keyword_type k = EXCLUDE) kws
            in if anyKeywordMatch desc excludeKeywords then False
               else if includeKeywords = [] then True
               else anyKeywordMatch desc includeKeywords)"

definition evaluateRule :: "TransactionData \<Rightarrow> ClassificationRule \<Rightarrow> bool" where
  "evaluateRule td rule =
     (if \<not> checkTransactionType td (transaction_type rule) then False
      else if \<not> checkAmountRange td rule then False
      else if \<not> checkKeywordMatching td rule then False
      else True)"

definition findMatchingRules ::
  "TransactionData \<Rightarrow> ClassificationRule list \<Rightarrow> ClassificationRule list" where
  "findMatchingRules td rules = filter (evaluateRule td) rules"

section \<open>Resolver\<close>

text \<open>
  \<open>toSorted\<close> is a stable sort; with the comparator \<open>a.priority - b.priority\<close> on
  integer priorities it is the stable sort by the key \<open>priority\<close>. The first element of
  an empty array is \<open>undefined\<close>, here \<open>None\<close>.
\<close>

definition selectBestRule :: "ClassificationRule list \<Rightarrow> ClassificationRule option" where
  "selectBestRule matchedRules =
     (case sort_key priority matchedRules of
        [] \<Rightarrow> None
      | best # others \<Rightarrow> Some best)"

text \<open>
  \<open>getMatchedKeywords\<close> lower-cases the description and the keyword without trimming
  either, tests plain containment, and collects the keyword texts as stored.
\<close>

definition getMatchedKeywords :: "TransactionData \<Rightarrow> ClassificationRule \<Rightarrow> string list" where
  "getMatchedKeywords td rule =
     (case rule_keywords rule of
        None \<Rightarrow> []
      | Some kws \<Rightarrow>
          if kws = [] then []
          else
            let desc = toLowerCase (description td);
                includeKeywords = filter (\<lambda>k. keyword_type k = INCLUDE) kws
            in map keyword
                 (filter (\<lambda>k. str_includes desc (toLowerCase (keyword k))) includeKeywords))"

section \<open>Rule cache\<close>

text \<open>
  The Rule Store is the collaborator \<open>RuleDataService\<close>: a query either fails with an
  exception or returns the active rules. The engine's state holds the two maps of the
  cache and, as a ghost field, the log of the queries sent to the Rule Store. Every
  operation that reads the clock takes the value read, \<open>now\<close>, as a parameter.
\<close>

datatype exn = Error string

datatype StoreQuery = RulesByCompany string | AllActiveRules

record RuleDataService =
  getRulesByCompany :: "string \<Rightarrow> exn + ClassificationRule list"
  getAllActiveRules :: "exn + ClassificationRule list"

record RuleEngineState =
  rulesCache :: "string \<rightharpoonup> ClassificationRule list"
  cacheExpiry :: "string \<rightharpoonup> int"
  storeQueries :: "StoreQuery list"

definition CACHE_TTL :: int where
  "CACHE_TTL = 5 * 60 * 1000"

text \<open>
  The test \<open>expiry && expiry > now\<close> needs a truthy expiry: a number other than 0.
\<close>

definition getAllCompanyRules ::
  "RuleDataService \<Rightarrow> int \<Rightarrow> RuleEngineState \<Rightarrow>
     (exn + ClassificationRule list) \<times> RuleEngineState" where
  "getAllCompanyRules rds now s =
     (let cacheKey = ''rules_all_companies'';
          hit = (case rulesCache s cacheKey of
                   None \<Rightarrow> None
                 | Some cached \<Rightarrow>
                     (case cacheExpiry s cacheKey of
                        None \<Rightarrow> None
                      | Some expiry \<Rightarrow>
                          if expiry \<noteq> 0 \<and> expiry > now then Some cached else None))
      in case hit of
           Some cached \<Rightarrow> (Inr cached, s)
         | None \<Rightarrow>
             (let s1 = s\<lparr>storeQueries := storeQueries s @ [AllActiveRules]\<rparr> in
              case getAllActiveRules rds of
                Inl e \<Rightarrow> (Inl e, s1)
              | Inr rules \<Rightarrow>
                  (Inr rules,
                   s1\<lparr>rulesCache := (rulesCache s1)(cacheKey \<mapsto> rules),
                      cacheExpiry := (cacheExpiry s1)(cacheKey \<mapsto> now + CACHE_TTL)\<rparr>)))"

definition getCachedRules ::
  "RuleDataService \<Rightarrow> int \<Rightarrow> string \<Rightarrow> RuleEngineState \<Rightarrow>
     (exn + ClassificationRule list) \<times> RuleEngineState" where
  "getCachedRules rds now cid s =
     (let cacheKey = ''rules_'' @ cid;
          hit = (case rulesCache s cacheKey of
                   None \<Rightarrow> None
                 | Some cached \<Rightarrow>
                     (case cacheExpiry s cacheKey of
                        None \<Rightarrow> None
                      | Some expiry \<Rightarrow>
                          if expiry \<noteq> 0 \<and> expiry > now then Some cached else None))
      in case hit of
           Some cached \<Rightarrow> (Inr cached, s)
         | None \<Rightarrow>
             (let s1 = s\<lparr>storeQueries := storeQueries s @ [RulesByCompany cid]\<rparr> in
              case getRulesByCompany rds cid of
                Inl e \<Rightarrow> (Inl e, s1)
              | Inr rules \<Rightarrow>
                  (Inr rules,
                   s1\<lparr>rulesCache := (rulesCache s1)(cacheKey \<mapsto> rules),
                      cacheExpiry := (cacheExpiry s1)(cacheKey \<mapsto> now + CACHE_TTL)\<rparr>)))"

definition invalidateRulesCache :: "string \<Rightarrow> RuleEngineState \<Rightarrow> RuleEngineState" where
  "invalidateRulesCache cid s =
     (let cacheKey = ''rules_'' @ cid in
      s\<lparr>rulesCache := (rulesCache s)(cacheKey := None),
        cacheExpiry := (cacheExpiry s)(cacheKey := None)\<rparr>)"

definition clearAllCache :: "RuleEngineState \<Rightarrow> RuleEngineState" where
  "clearAllCache s = s\<lparr>rulesCache := Map.empty, cacheExpiry := Map.empty\<rparr>"

section \<open>Classifier\<close>

text \<open>The object literal \<open>{isClassified: false, reason}\<close>.\<close>

definition unclassified :: "string \<Rightarrow> ClassificationResult" where
  "unclassified why =
     \<lparr>isClassified = False, categoryId = None, categoryName = None, ruleId = None,
      matchedKeywords = None, reason = Some why, actualCompanyId = None\<rparr>"

text \<open>
  \<open>classifyTransaction_try\<close> is the body of the \<open>try\<close> block: \<open>Inl\<close> is an exception
  leaving the body. The Rule Store query can raise one; reading a field of the undefined
  first element of an empty array would raise a TypeError.
\<close>

definition classifyTransaction_try ::
  "RuleDataService \<Rightarrow> int \<Rightarrow> ClassificationContext \<Rightarrow> RuleEngineState \<Rightarrow>
     (exn + ClassificationResult) \<times> RuleEngineState" where
  "classifyTransaction_try rds now ctx s =
     (case (if userType ctx = Some ''ADMIN'' then getAllCompanyRules rds now s
            else getCachedRules rds now (companyId ctx) s) of
        (Inl e, s') \<Rightarrow> (Inl e, s')
      | (Inr rules, s') \<Rightarrow>
          if rules = [] then
            (Inr (unclassified
                    (if userType ctx = Some ''ADMIN''
                     then ''No active rules found for any company''
                     else ''No active rules found for company'')), s')
          else
            let matchedRules = findMatchingRules (transactionData ctx) rules in
            if matchedRules = [] then (Inr (unclassified ''No matching rules found''), s')
            else
              (case selectBestRule matchedRules of
                 None \<Rightarrow> (Inl (Error ''TypeError''), s')
               | Some selectedRule \<Rightarrow>
                   (Inr \<lparr>isClassified = True,
                         categoryId = Some (category_id selectedRule),
                         categoryName = map_option category_name (category selectedRule),
                         ruleId = Some (rule_id selectedRule),
                         matchedKeywords =
                           Some (getMatchedKeywords (transactionData ctx) selectedRule),
                         reason = Some ''Successfully classified'',
                         actualCompanyId = Some (company_id selectedRule)\<rparr>, s')))"

text \<open>The \<open>catch\<close> block turns every exception of the body into a result.\<close>

definition classifyTransaction ::
  "RuleDataService \<Rightarrow> int \<Rightarrow> ClassificationContext \<Rightarrow> RuleEngineState \<Rightarrow>
     (exn + ClassificationResult) \<times> RuleEngineState" where
  "classifyTransaction rds now ctx s =
     (case classifyTransaction_try rds now ctx s of
        (Inl e, s') \<Rightarrow> (Inr (unclassified ''Classification error occurred''), s')
      | (Inr res, s') \<Rightarrow> (Inr res, s'))"

section \<open>Batch classification\<close>

text \<open>
  The body of the batch loop for one transaction, with its own \<open>try\<close> and \<open>catch\<close>.
  The result of a success has no \<open>actualCompanyId\<close>.
\<close>

definition classifyInBatch ::
  "ClassificationRule list \<Rightarrow> TransactionData \<Rightarrow> ClassificationResult" where
  "classifyInBatch rules td =
     (let matchedRules = findMatchingRules td rules in
      if matchedRules = [] then unclassified ''No matching rules found''
      else
        (case selectBestRule matchedRules of
           None \<Rightarrow> unclassified ''Classification error occurred''
         | Some selectedRule \<Rightarrow>
             \<lparr>isClassified = True,
              categoryId = Some (category_id selectedRule),
              categoryName = map_option category_name (category selectedRule),
              ruleId = Some (rule_id selectedRule),
              matchedKeywords = Some (getMatchedKeywords td selectedRule),
              reason = Some ''Successfully classified'',
              actualCompanyId = None\<rparr>))"

text \<open>
  \<open>classifyTransactionsBatch(companyId, transactions)\<close> has no user type among its
  parameters. The query for the rules is outside every \<open>try\<close>: its exception leaves
  the function.
\<close>

definition classifyTransactionsBatch ::
  "RuleDataService \<Rightarrow> int \<Rightarrow> string \<Rightarrow> TransactionData list \<Rightarrow> RuleEngineState \<Rightarrow>
     (exn + ClassificationResult list) \<times> RuleEngineState" where
  "classifyTransactionsBatch rds now cid txs s =
     (if txs = [] then (Inr [], s)
      else
        (case getCachedRules rds now cid s of
           (Inl e, s') \<Rightarrow> (Inl e, s')
         | (Inr rules, s') \<Rightarrow>
             if rules = [] then
               (Inr (map (\<lambda>t. unclassified ''No active rules found for company'') txs), s')
             else (Inr (map (classifyInBatch rules) txs), s')))"

section \<open>Statistics\<close>

text \<open>
  \<open>categoryStats\<close> is a plain object \<open>{}\<close> used as a dictionary. Its own properties
  are an association list in the order in which the engine enumerates them: the keys
  that are array indices (canonical decimal numerals below \<open>2^32 - 1\<close>) in ascending
  order, then the other keys in the order of their creation. A key that is not an own
  property is looked up in \<open>Object.prototype\<close>: its methods are native functions, and
  \<open>__proto__\<close> gives the prototype object itself.
\<close>

datatype jsval =
  JSUndefined | JSNumber int | JSString string | NativeFunction string | ObjectPrototype

type_synonym jsobject = "(string \<times> jsval) list"

definition objectPrototype :: jsobject where
  "objectPrototype =
     [(''constructor'', NativeFunction ''Object''),
      (''__defineGetter__'', NativeFunction ''__defineGetter__''),
      (''__defineSetter__'', NativeFunction ''__defineSetter__''),
      (''hasOwnProperty'', NativeFunction ''hasOwnProperty''),
      (''__lookupGetter__'', NativeFunction ''__lookupGetter__''),
      (''__lookupSetter__'', NativeFunction ''__lookupSetter__''),
      (''isPrototypeOf'', NativeFunction ''isPrototypeOf''),
      (''propertyIsEnumerable'', NativeFunction ''propertyIsEnumerable''),
      (''toString'', NativeFunction ''toString''),
      (''valueOf'', NativeFunction ''valueOf''),
      (''toLocaleString'', NativeFunction ''toLocaleString''),
      (''__proto__'', ObjectPrototype)]"

definition getProperty :: "jsobject \<Rightarrow> string \<Rightarrow> jsval" where
  "getProperty obj k =
     (case map_of obj k of
        Some v \<Rightarrow> v
      | None \<Rightarrow> (case map_of objectPrototype k of Some v \<Rightarrow> v | None \<Rightarrow> JSUndefined))"

definition isDigit :: "char \<Rightarrow> bool" where
  "isDigit c = (c \<in> set ''0123456789'')"

definition digitsValue :: "string \<Rightarrow> nat" where
  "digitsValue s = foldl (\<lambda>n c. 10 * n + (of_char c - 48)) 0 s"

definition isArrayIndex :: "string \<Rightarrow> bool" where
  "isArrayIndex k =
     (k \<noteq> [] \<and> list_all isDigit k \<and> (k = ''0'' \<or> hd k \<noteq> CHR ''0'')
      \<and> digitsValue k < 4294967295)"

fun insertKey :: "jsobject \<Rightarrow> string \<Rightarrow> jsval \<Rightarrow> jsobject" where
  "insertKey [] k v = [(k, v)]"
| "insertKey ((k', v') # rest) k v =
     (if isArrayIndex k \<and> (\<not> isArrayIndex k' \<or> digitsValue k < digitsValue k')
      then (k, v) # (k', v') # rest
      else (k', v') # insertKey rest k v)"

text \<open>
  \<open>obj[k] = v\<close> for a primitive value \<open>v\<close>: the assignment to \<open>__proto__\<close> is ignored,
  an own property is overwritten in place, and a new own property is created (the
  inherited methods are writable, so the new property shadows them).
\<close>

definition setProperty :: "jsobject \<Rightarrow> string \<Rightarrow> jsval \<Rightarrow> jsobject" where
  "setProperty obj k v =
     (if k = ''__proto__'' then obj
      else if k \<in> set (map fst obj)
      then map (\<lambda>(k', v'). if k' = k then (k', v) else (k', v')) obj
      else insertKey obj k v)"

text \<open>
  The expression \<open>(x || 0) + 1\<close>: a falsy \<open>x\<close> gives \<open>0 + 1\<close>; a number gives the next
  number; a string is concatenated with \<open>1\<close>; a native function and the prototype object
  are converted to strings (\<open>function Object() { [native code] }\<close> for the function
  \<open>Object\<close>, \<open>[object Object]\<close> for the prototype) and concatenated with \<open>1\<close>.
\<close>

fun orZeroPlusOne :: "jsval \<Rightarrow> jsval" where
  "orZeroPlusOne JSUndefined = JSNumber (0 + 1)"
| "orZeroPlusOne (JSNumber n) = JSNumber ((if n \<noteq> 0 then n else 0) + 1)"
| "orZeroPlusOne (JSString str) = (if str \<noteq> [] then JSString (str @ ''1'') else JSNumber (0 + 1))"
| "orZeroPlusOne (NativeFunction name) =
     JSString (''function '' @ name @ ''() { [native code] }'' @ ''1'')"
| "orZeroPlusOne ObjectPrototype = JSString (''[object Object]'' @ ''1'')"

text \<open>\<open>bumpCategory\<close> is \<open>categoryStats[id] = (categoryStats[id] || 0) + 1\<close>.\<close>

definition bumpCategory :: "jsobject \<Rightarrow> string \<Rightarrow> jsobject" where
  "bumpCategory stats cid = setProperty stats cid (orZeroPlusOne (getProperty stats cid))"

record ClassificationStats =
  totalCount :: int
  classifiedCount :: int
  unclassifiedCount :: int
  categoryStats :: jsobject

fun countCategories :: "jsobject \<Rightarrow> ClassificationResult list \<Rightarrow> jsobject" where
  "countCategories stats [] = stats"
| "countCategories stats (r # rs) =
     (case categoryId r of
        None \<Rightarrow> countCategories stats rs
      | Some cid \<Rightarrow>
          if cid \<noteq> [] then countCategories (bumpCategory stats cid) rs
          else countCategories stats rs)"

definition generateClassificationStats :: "ClassificationResult list \<Rightarrow> ClassificationStats" where
  "generateClassificationStats results =
     (let total = int (length results);
          classifiedResults = filter isClassified results;
          classified = int (length classifiedResults)
      in \<lparr>totalCount = total,
          classifiedCount = classified,
          unclassifiedCount = total - classified,
          categoryStats = countCategories [] classifiedResults\<rparr>)"

text \<open>
  The sum of the counts per category: the sum of the own properties that are numbers.
\<close>

definition numberOf :: "jsval \<Rightarrow> int" where
  "numberOf v = (case v of JSNumber n \<Rightarrow> n | _ \<Rightarrow> 0)"

definition sumOfCounts :: "jsobject \<Rightarrow> int" where
  "sumOfCounts obj = sum_list (map (\<lambda>(k, v). numberOf v) obj)"

section \<open>Save-and-classify pipeline\<close>

text \<open>
  The entity \<open>Transaction\<close> receives the six fields of the parsed transaction as they
  are, then \<open>processed_at\<close>, \<open>company_id\<close> and \<open>category_id\<close> (here
  \<open>txn_company_id\<close> and \<open>txn_category_id\<close>; \<open>None\<close> is \<open>null\<close>). The fields of the
  request and of the service's result carry the prefixes \<open>req_\<close> and \<open>svc_\<close>.
  The collaborators are parameters: \<open>decrypt\<close> (which can raise), \<open>save\<close> (which
  returns the exception it raised, if any), and the clock readings \<open>nowAt i\<close> and
  \<open>dateAt i\<close> taken while the transaction at position \<open>i\<close> is processed.
\<close>

record ParsedTransaction =
  transaction_date :: int
  description_encrypted :: string
  deposit_amount :: rat
  withdrawal_amount :: rat
  balance_after :: rat
  branch_encrypted :: string

record Transaction = ParsedTransaction +
  processed_at :: int
  txn_company_id :: "string option"
  txn_category_id :: "string option"

record TransactionClassificationRequest =
  req_companyId :: string
  req_transactions :: "ParsedTransaction list"
  req_userType :: string





section \<open>Example data\<close>

text \<open>
  The rule and the transaction of the repository's unit tests, with Latin keywords: a
  withdrawal rule for amounts from 1000 to 50000 that includes one keyword and excludes
  another.
\<close>

definition exInclude :: RuleKeyword where
  "exInclude = \<lparr>keyword_id = 1, keyword = ''Starbucks'', keyword_type = INCLUDE\<rparr>"

definition exExclude :: RuleKeyword where
  "exExclude = \<lparr>keyword_id = 2, keyword = ''Refund'', keyword_type = EXCLUDE\<rparr>"

definition exRule :: ClassificationRule where
  "exRule =
     \<lparr>rule_id = 1, company_id = ''com_1'', category_id = ''cat_1'',
      min_amount = Some 1000, max_amount = Some 50000, transaction_type = WITHDRAWAL,
      priority = 1, is_active = True, category = Some \<lparr>category_name = ''food''\<rparr>,
      rule_keywords = Some [exInclude, exExclude]\<rparr>"

definition exTx :: "string \<Rightarrow> rat \<Rightarrow> rat \<Rightarrow> TransactionData" where
  "exTx d dep wd =
     \<lparr>description = d, depositAmount = dep, withdrawalAmount = wd,
      transactionDate = 0, branch = None\<rparr>"

text \<open>
  A Rule Store where only the tenant \<open>com_1\<close> has a rule, a Rule Store whose queries
  fail, the state of a new engine, and the state after the rules of \<open>com_1\<close> were
  loaded at time 1000.
\<close>

definition exStore :: RuleDataService where
  "exStore =
     \<lparr>getRulesByCompany = (\<lambda>cid. if cid = ''com_1'' then Inr [exRule] else Inr []),
      getAllActiveRules = Inr [exRule]\<rparr>"

definition failingStore :: RuleDataService where
  "failingStore =
     \<lparr>getRulesByCompany = (\<lambda>cid. Inl (Error ''connection lost'')),
      getAllActiveRules = Inl (Error ''connection lost'')\<rparr>"

definition emptyState :: RuleEngineState where
  "emptyState = \<lparr>rulesCache = Map.empty, cacheExpiry = Map.empty, storeQueries = []\<rparr>"

definition exCachedState :: RuleEngineState where
  "exCachedState =
     \<lparr>rulesCache = [''rules_com_1'' \<mapsto> [exRule]],
      cacheExpiry = [''rules_com_1'' \<mapsto> 301000],
      storeQueries = [RulesByCompany ''com_1'']\<rparr>"

definition exContext ::
  "string \<Rightarrow> string option \<Rightarrow> TransactionData \<Rightarrow> ClassificationContext" where
  "exContext cid ut td = \<lparr>companyId = cid, transactionData = td, userType = ut\<rparr>"

definition exClassified :: "string option \<Rightarrow> ClassificationResult" where
  "exClassified actual =
     \<lparr>isClassified = True, categoryId = Some ''cat_1'', categoryName = Some ''food'',
      ruleId = Some 1, matchedKeywords = Some [''Starbucks''],
      reason = Some ''Successfully classified'', actualCompanyId = actual\<rparr>"

definition exParsed :: "string \<Rightarrow> ParsedTransaction" where
  "exParsed d =
     \<lparr>transaction_date = 0, description_encrypted = d, deposit_amount = 0,
      withdrawal_amount = 5500, balance_after = 994500, branch_encrypted = ''Gangnam''\<rparr>"

definition exRequest :: "string \<Rightarrow> string \<Rightarrow> TransactionClassificationRequest" where
  "exRequest cid ut = \<lparr>req_companyId = cid, req_transactions = [], req_userType = ut\<rparr>"

definition exEntity :: Transaction where
  "exEntity =
     \<lparr>transaction_date = 0, description_encrypted = ''Starbucks Gangnam'',
      deposit_amount = 0, withdrawal_amount = 5500, balance_after = 994500,
      branch_encrypted = ''Gangnam'', processed_at = 1001,
      txn_company_id = Some ''com_1'', txn_category_id = Some ''cat_1''\<rparr>"

definition exAdminState :: RuleEngineState where
  "exAdminState =
     \<lparr>rulesCache = [''rules_all_companies'' \<mapsto> [exRule]],
      cacheExpiry = [''rules_all_companies'' \<mapsto> 301000],
      storeQueries = [AllActiveRules]\<rparr>"

text \<open>
  A rule whose category identifier is \<open>constructor\<close>, which the validation of the rule
  file accepts, and a Rule Store that holds it for \<open>com_1\<close>.
\<close>

definition ctorRule :: ClassificationRule where
  "ctorRule = exRule\<lparr>category_id := ''constructor''\<rparr>"

definition ctorStore :: RuleDataService where
  "ctorStore =
     \<lparr>getRulesByCompany = (\<lambda>cid. if cid = ''com_1'' then Inr [ctorRule] else Inr []),
      getAllActiveRules = Inr [ctorRule]\<rparr>"

lemmas ex_defs =
  exStore_def failingStore_def emptyState_def exCachedState_def exContext_def
  exClassified_def exParsed_def exRequest_def exEntity_def exAdminState_def
  exTx_def exRule_def exInclude_def exExclude_def ctorRule_def ctorStore_def

lemmas stats_defs =
  generateClassificationStats_def bumpCategory_def setProperty_def getProperty_def
  objectPrototype_def isArrayIndex_def isDigit_def digitsValue_def

lemmas engine_defs =
  classifyTransaction_def classifyTransaction_try_def getCachedRules_def
  getAllCompanyRules_def invalidateRulesCache_def Let_def CACHE_TTL_def
  classifyTransactionsBatch_def classifyInBatch_def unclassified_def
  findMatchingRules_def evaluateRule_def checkTransactionType_def checkAmountRange_def
  checkKeywordMatching_def isKeywordMatch_def selectBestRule_def getMatchedKeywords_def
  split_ws.simps trim_def toLowerCase_def lowerChar_def isWhiteSpace_def truthy_def

section \<open>Keyword matching\<close>

lemma str_includes_sublist: "str_includes s k \<longleftrightarrow> sublist k s"
  by (induction s) (simp_all add: sublist_Cons_right)

lemma split_ws_sublist: "w \<in> set (split_ws s) \<Longrightarrow> sublist w s"
proof (induction s arbitrary: w rule: split_ws.induct)
  case (1 s)
  show ?case
  proof (cases "dropWhile (\<lambda>c. \<not> isWhiteSpace c) s")
    case Nil
    with "1.prems" show ?thesis by (simp add: split_ws.simps [of s])
  next
    case (Cons sep rest)
    have s_eq: "s = takeWhile (\<lambda>c. \<not> isWhiteSpace c) s @ sep # rest"
      using takeWhile_dropWhile_id [of "\<lambda>c. \<not> isWhiteSpace c" s] Cons by simp
    from "1.prems" Cons
    consider "w = takeWhile (\<lambda>c. \<not> isWhiteSpace c) s"
      | "w \<in> set (split_ws (dropWhile isWhiteSpace rest))"
      by (auto simp: split_ws.simps [of s])
    then show ?thesis
    proof cases
      case 1
      then show ?thesis
        by (metis prefix_imp_sublist takeWhile_is_prefix)
    next
      case 2
      then have "sublist w (dropWhile isWhiteSpace rest)"
        using "1.IH" Cons by blast
      moreover have "suffix (dropWhile isWhiteSpace rest) rest"
        by (rule suffix_dropWhile)
      moreover have "suffix rest s"
        using s_eq by (metis suffix_ConsI suffix_append suffix_order.order_refl)
      ultimately show ?thesis
        by (meson sublist_order.order_trans suffix_imp_sublist)
    qed
  qed
qed

lemma isKeywordMatch_sublist: "isKeywordMatch desc kw \<longleftrightarrow> sublist kw desc"
  using split_ws_sublist [of kw desc]
  by (auto simp: isKeywordMatch_def Let_def list_ex_iff str_includes_sublist)

text \<open>
  C10. For every description and every keyword, \<open>isKeywordMatch\<close> (the keyword equals a
  white-space separated word of the description, or the description contains it) says
  exactly that the description contains the keyword as a contiguous substring: the
  whole-word test adds nothing, each word being a substring of the description.
\<close>

theorem isKeywordMatch_is_substring:
  "isKeywordMatch desc kw = str_includes desc kw
   \<and> (isKeywordMatch desc kw \<longleftrightarrow> (\<exists>before after. desc = before @ kw @ after))"
  by (simp add: isKeywordMatch_sublist str_includes_sublist sublist_def)

text \<open>
  Lower-casing a code unit twice changes nothing more, and trimming leaves a contiguous
  part. So a keyword text that the lower-cased, trimmed description contains as it is
  stored is also contained after its own lower-casing and trimming.
\<close>

lemma lowerChar_idem: "lowerChar (lowerChar c) = lowerChar c"
proof (cases c)
  case (Char b0 b1 b2 b3 b4 b5 b6 b7)
  show ?thesis
    unfolding Char
    by (cases b0; cases b1; cases b2; cases b3; cases b4; cases b5; cases b6; cases b7)
       (simp_all add: lowerChar_def)
qed

lemma trim_sublist: "sublist (trim s) s"
proof -
  have "prefix (trim s) (dropWhile isWhiteSpace s)"
    unfolding trim_def
    by (metis rev_rev_ident suffix_dropWhile suffix_to_prefix)
  moreover have "suffix (dropWhile isWhiteSpace s) s"
    by (rule suffix_dropWhile)
  ultimately show ?thesis
    by (meson prefix_imp_sublist sublist_order.order_trans suffix_imp_sublist)
qed

lemma raw_keyword_match:
  assumes "isKeywordMatch (trim (toLowerCase d)) k"
  shows "isKeywordMatch (trim (toLowerCase d)) (trim (toLowerCase k))"
proof -
  from assms have sub: "sublist k (trim (toLowerCase d))"
    by (simp add: isKeywordMatch_sublist)
  have "set (trim (toLowerCase d)) \<subseteq> set (toLowerCase d)"
    using trim_sublist set_mono_sublist by blast
  with sub have "set k \<subseteq> lowerChar ` set d"
    using set_mono_sublist [OF sub] by (auto simp: toLowerCase_def)
  then have "toLowerCase k = k"
    unfolding toLowerCase_def by (intro map_idI) (auto simp: lowerChar_idem)
  moreover have "sublist (trim k) (trim (toLowerCase d))"
    using trim_sublist [of k] sub by (meson sublist_order.order_trans)
  ultimately show ?thesis
    by (simp add: isKeywordMatch_sublist)
qed

lemma anyKeywordMatch_iff:
  "anyKeywordMatch desc ks \<longleftrightarrow>
     (\<exists>k\<in>set ks. isKeywordMatch desc (trim (toLowerCase (keyword k))))"
  by (induction ks) auto

text \<open>
  C2. For every transaction and every rule: when the lower-cased, trimmed description
  matches an EXCLUDE keyword of the rule (the keyword text lower-cased and trimmed as the
  code compares it, or the text as it is stored), the keyword stage fails and the rule
  does not match, whatever its INCLUDE keywords are. When no
  EXCLUDE keyword matches and the rule has no INCLUDE keyword, or when the rule has no
  keywords at all, the keyword stage passes.
\<close>

theorem exclude_keyword_dominates:
  "(rule_keywords rule = Some kws \<and> k \<in> set kws \<and> keyword_type k = EXCLUDE
      \<and> (isKeywordMatch (trim (toLowerCase (description td))) (trim (toLowerCase (keyword k)))
         \<or> isKeywordMatch (trim (toLowerCase (description td))) (keyword k))
      \<longrightarrow> \<not> checkKeywordMatching td rule \<and> \<not> evaluateRule td rule)
   \<and> (rule_keywords rule = Some kws
      \<and> (\<forall>e\<in>set kws. keyword_type e = EXCLUDE \<longrightarrow>
            \<not> isKeywordMatch (trim (toLowerCase (description td)))
                 (trim (toLowerCase (keyword e))))
      \<and> (\<forall>i\<in>set kws. keyword_type i \<noteq> INCLUDE)
      \<longrightarrow> checkKeywordMatching td rule)
   \<and> (rule_keywords rule = None \<longrightarrow> checkKeywordMatching td rule)"
proof -
  have veto: "\<not> checkKeywordMatching td rule"
    if "rule_keywords rule = Some kws" "k \<in> set kws" "keyword_type k = EXCLUDE"
       "isKeywordMatch (trim (toLowerCase (description td))) (trim (toLowerCase (keyword k)))
        \<or> isKeywordMatch (trim (toLowerCase (description td))) (keyword k)"
  proof -
    from that have "kws \<noteq> []" by auto
    moreover from that(4)
    have "isKeywordMatch (trim (toLowerCase (description td))) (trim (toLowerCase (keyword k)))"
      using raw_keyword_match by blast
    with that
    have "anyKeywordMatch (trim (toLowerCase (description td)))
            (filter (\<lambda>k. keyword_type k = EXCLUDE) kws)"
      unfolding anyKeywordMatch_iff by auto
    ultimately show ?thesis
      using that(1) by (simp add: checkKeywordMatching_def Let_def)
  qed
  have pass: "checkKeywordMatching td rule"
    if "rule_keywords rule = Some kws"
       "\<forall>e\<in>set kws. keyword_type e = EXCLUDE \<longrightarrow>
            \<not> isKeywordMatch (trim (toLowerCase (description td)))
                 (trim (toLowerCase (keyword e)))"
       "\<forall>i\<in>set kws. keyword_type i \<noteq> INCLUDE"
  proof -
    from that(2)
    have "\<not> anyKeywordMatch (trim (toLowerCase (description td)))
            (filter (\<lambda>k. keyword_type k = EXCLUDE) kws)"
      unfolding anyKeywordMatch_iff by auto
    moreover from that(3) have "filter (\<lambda>k. keyword_type k = INCLUDE) kws = []"
      by (simp add: filter_empty_conv)
    ultimately show ?thesis
      using that(1) by (simp add: checkKeywordMatching_def Let_def)
  qed
  have none: "rule_keywords rule = None \<longrightarrow> checkKeywordMatching td rule"
    by (simp add: checkKeywordMatching_def)
  from veto pass none show ?thesis
    by (auto simp: evaluateRule_def)
qed

text \<open>
  At the example rule, a description holding both keywords is vetoed by the EXCLUDE
  keyword; a rule with that EXCLUDE keyword alone passes a description without it.
\<close>

theorem exclude_keyword_dominates_witness:
  "\<not> evaluateRule (exTx '' Starbucks REFUND desk '' 0 5500) exRule
   \<and> checkKeywordMatching (exTx ''Starbucks'' 0 5500)
        (exRule\<lparr>rule_keywords := Some [exExclude]\<rparr>)"
  using exclude_keyword_dominates
          [of exRule "[exInclude, exExclude]" exExclude "exTx '' Starbucks REFUND desk '' 0 5500"]
        exclude_keyword_dominates
          [of "exRule\<lparr>rule_keywords := Some [exExclude]\<rparr>" "[exExclude]" exExclude
              "exTx ''Starbucks'' 0 5500"]
  by (simp add: exRule_def exTx_def exInclude_def exExclude_def isKeywordMatch_def
        split_ws.simps trim_def toLowerCase_def lowerChar_def isWhiteSpace_def)

section \<open>Amount range and transaction type\<close>

text \<open>
  C3. For every transaction and every rule, the amount check compares
  \<open>max depositAmount withdrawalAmount\<close> with the bounds, both inclusive, and a bound
  that is absent constrains nothing. With the bounds 1000 and 50000 the amounts 1000
  and 50000 pass and the amounts 999 and 50001 fail.
\<close>

theorem checkAmountRange_inclusive:
  "(checkAmountRange td rule \<longleftrightarrow>
      (case min_amount rule of None \<Rightarrow> True
       | Some lo \<Rightarrow> max (depositAmount td) (withdrawalAmount td) \<ge> lo)
    \<and> (case max_amount rule of None \<Rightarrow> True
       | Some hi \<Rightarrow> max (depositAmount td) (withdrawalAmount td) \<le> hi))
   \<and> (min_amount rule = Some 1000 \<and> max_amount rule = Some 50000 \<longrightarrow>
        (max (depositAmount td) (withdrawalAmount td) = 1000 \<longrightarrow> checkAmountRange td rule)
      \<and> (max (depositAmount td) (withdrawalAmount td) = 50000 \<longrightarrow> checkAmountRange td rule)
      \<and> (max (depositAmount td) (withdrawalAmount td) = 999 \<longrightarrow> \<not> checkAmountRange td rule)
      \<and> (max (depositAmount td) (withdrawalAmount td) = 50001 \<longrightarrow> \<not> checkAmountRange td rule))"
  by (auto simp: checkAmountRange_def Let_def split: option.splits)

theorem checkAmountRange_inclusive_witness:
  "checkAmountRange (exTx ''x'' 0 1000) exRule
   \<and> checkAmountRange (exTx ''x'' 50000 0) exRule
   \<and> \<not> checkAmountRange (exTx ''x'' 0 999) exRule
   \<and> \<not> checkAmountRange (exTx ''x'' 50001 0) exRule"
  using checkAmountRange_inclusive [of "exTx ''x'' 0 1000" exRule]
        checkAmountRange_inclusive [of "exTx ''x'' 50000 0" exRule]
        checkAmountRange_inclusive [of "exTx ''x'' 0 999" exRule]
        checkAmountRange_inclusive [of "exTx ''x'' 50001 0" exRule]
  by (simp add: exTx_def exRule_def)

text \<open>
  C4. For every transaction with amounts that are not negative (the data model's
  invariant, enforced by the parser's validation): the type \<open>ALL\<close> always passes;
  \<open>DEPOSIT\<close> passes exactly when the deposit is positive and the withdrawal is zero;
  \<open>WITHDRAWAL\<close> passes exactly when the withdrawal is positive and the deposit is zero.
  So a \<open>DEPOSIT\<close> rule never matches a transaction with a positive withdrawal and no
  deposit, and a transaction with both amounts nonzero fails both filters.
\<close>

theorem checkTransactionType_filter:
  assumes "0 \<le> depositAmount td" and "0 \<le> withdrawalAmount td"
  shows "checkTransactionType td ALL_TYPES
   \<and> (checkTransactionType td DEPOSIT \<longleftrightarrow> depositAmount td > 0 \<and> withdrawalAmount td = 0)
   \<and> (checkTransactionType td WITHDRAWAL \<longleftrightarrow> withdrawalAmount td > 0 \<and> depositAmount td = 0)
   \<and> (transaction_type rule = DEPOSIT \<and> withdrawalAmount td > 0 \<and> depositAmount td = 0
        \<longrightarrow> \<not> evaluateRule td rule)
   \<and> (depositAmount td \<noteq> 0 \<and> withdrawalAmount td \<noteq> 0
        \<longrightarrow> \<not> checkTransactionType td DEPOSIT \<and> \<not> checkTransactionType td WITHDRAWAL)"
  using assms by (auto simp: checkTransactionType_def evaluateRule_def Let_def)

theorem checkTransactionType_filter_witness:
  "\<not> evaluateRule (exTx ''starbucks'' 0 5500) (exRule\<lparr>transaction_type := DEPOSIT\<rparr>)
   \<and> checkTransactionType (exTx ''starbucks'' 0 5500) WITHDRAWAL
   \<and> \<not> checkTransactionType (exTx ''starbucks'' 0 5500) DEPOSIT
   \<and> checkTransactionType (exTx ''starbucks'' 0 5500) ALL_TYPES
   \<and> \<not> checkTransactionType (exTx ''starbucks'' 10 5500) WITHDRAWAL"
  using checkTransactionType_filter
          [of "exTx ''starbucks'' 0 5500" "exRule\<lparr>transaction_type := DEPOSIT\<rparr>"]
        checkTransactionType_filter
          [of "exTx ''starbucks'' 10 5500" "exRule\<lparr>transaction_type := DEPOSIT\<rparr>"]
  by (simp add: exTx_def exRule_def)

section \<open>Priority resolution\<close>

lemma find_filter: "find P xs = (case filter P xs of [] \<Rightarrow> None | x # _ \<Rightarrow> Some x)"
  by (induction xs) simp_all

lemma selectBestRule_sorted:
  assumes "rs \<noteq> []"
  shows "\<exists>best others. sort_key priority rs = best # others
           \<and> selectBestRule rs = Some best
           \<and> best \<in> set rs
           \<and> (\<forall>r\<in>set rs. priority best \<le> priority r)
           \<and> find (\<lambda>r. priority r = priority best) rs = Some best"
proof -
  from assms have "sort_key priority rs \<noteq> []"
    by (metis length_0_conv length_sort)
  then obtain best others where eq: "sort_key priority rs = best # others"
    by (cases "sort_key priority rs") auto
  have sel: "selectBestRule rs = Some best"
    by (simp add: selectBestRule_def eq)
  have mem: "best \<in> set rs"
    using eq by (metis list.set_intros(1) set_sort)
  have "sorted (map priority (sort_key priority rs))"
    by (rule sorted_sort_key)
  then have "\<forall>r\<in>set (best # others). priority best \<le> priority r"
    unfolding eq by auto
  then have least: "\<forall>r\<in>set rs. priority best \<le> priority r"
    using eq by (metis set_sort)
  have "filter (\<lambda>r. priority r = priority best) rs
          = filter (\<lambda>r. priority r = priority best) (sort_key priority rs)"
    by (rule sort_key_stable [symmetric])
  also have "\<dots> = best # filter (\<lambda>r. priority r = priority best) others"
    unfolding eq by simp
  finally have "find (\<lambda>r. priority r = priority best) rs = Some best"
    by (simp add: find_filter)
  with eq sel mem least show ?thesis by blast
qed

text \<open>
  C5. For every non-empty list of matched rules, \<open>selectBestRule\<close> returns a rule of
  the list whose priority is the least of the list, and that rule is the first one of
  the list that has this priority. Of two rules with the priorities 1 and 2, the rule
  with priority 1 is selected in either order.
\<close>

theorem selectBestRule_lowest_first:
  "(matchedRules \<noteq> [] \<longrightarrow>
      (\<exists>best. selectBestRule matchedRules = Some best
          \<and> best \<in> set matchedRules
          \<and> (\<forall>r\<in>set matchedRules. priority best \<le> priority r)
          \<and> find (\<lambda>r. priority r = priority best) matchedRules = Some best))
   \<and> (priority a = 1 \<and> priority b = 2 \<longrightarrow>
        selectBestRule [a, b] = Some a \<and> selectBestRule [b, a] = Some a)"
proof -
  have "priority a = 1 \<and> priority b = 2 \<longrightarrow>
        selectBestRule [a, b] = Some a \<and> selectBestRule [b, a] = Some a"
    by (simp add: selectBestRule_def)
  moreover have "matchedRules \<noteq> [] \<longrightarrow>
      (\<exists>best. selectBestRule matchedRules = Some best
          \<and> best \<in> set matchedRules
          \<and> (\<forall>r\<in>set matchedRules. priority best \<le> priority r)
          \<and> find (\<lambda>r. priority r = priority best) matchedRules = Some best)"
    using selectBestRule_sorted [of matchedRules] by blast
  ultimately show ?thesis by blast
qed

text \<open>
  Three rules with the priorities 2, 1 and 1: the first of the two rules with priority 1
  is selected.
\<close>

theorem selectBestRule_lowest_first_witness:
  "selectBestRule [exRule\<lparr>rule_id := 7, priority := 2\<rparr>, exRule\<lparr>rule_id := 8\<rparr>,
                   exRule\<lparr>rule_id := 9\<rparr>] = Some (exRule\<lparr>rule_id := 8\<rparr>)
   \<and> selectBestRule [exRule\<lparr>rule_id := 7, priority := 2\<rparr>, exRule] = Some exRule"
  using selectBestRule_lowest_first
          [of "[exRule\<lparr>rule_id := 7, priority := 2\<rparr>, exRule\<lparr>rule_id := 8\<rparr>,
                exRule\<lparr>rule_id := 9\<rparr>]" exRule "exRule\<lparr>rule_id := 7, priority := 2\<rparr>"]
  by (auto simp: exRule_def)

section \<open>Classifier results\<close>

text \<open>
  C6. For every Rule Store, time, context and engine state, \<open>classifyTransaction\<close>
  returns a result and raises nothing: an exception of the \<open>try\<close> block, such as a
  failing Rule Store query, becomes the unclassified result with the reason
  ``Classification error occurred''; an empty rule list gives the unclassified result
  with a no-active-rules reason; a rule list without a matching rule gives the
  unclassified result with the reason ``No matching rules found''.
\<close>

theorem classifyTransaction_never_throws:
  "\<exists>res s'. classifyTransaction rds now ctx s = (Inr res, s')
     \<and> (\<forall>e. classifyTransaction_try rds now ctx s = (Inl e, s')
           \<longrightarrow> res = unclassified ''Classification error occurred'')
     \<and> (\<forall>rules. (if userType ctx = Some ''ADMIN'' then getAllCompanyRules rds now s
                  else getCachedRules rds now (companyId ctx) s) = (Inr rules, s')
           \<longrightarrow> (rules = [] \<longrightarrow> \<not> isClassified res
                    \<and> reason res = Some (if userType ctx = Some ''ADMIN''
                                          then ''No active rules found for any company''
                                          else ''No active rules found for company''))
             \<and> (rules \<noteq> [] \<and> findMatchingRules (transactionData ctx) rules = []
                    \<longrightarrow> \<not> isClassified res \<and> reason res = Some ''No matching rules found''))
     \<and> (\<forall>e. (if userType ctx = Some ''ADMIN'' then getAllCompanyRules rds now s
              else getCachedRules rds now (companyId ctx) s) = (Inl e, s')
           \<longrightarrow> \<not> isClassified res \<and> reason res = Some ''Classification error occurred'')"
proof -
  obtain loaded s1 where ld:
    "(if userType ctx = Some ''ADMIN'' then getAllCompanyRules rds now s
      else getCachedRules rds now (companyId ctx) s) = (loaded, s1)"
    by (cases "if userType ctx = Some ''ADMIN'' then getAllCompanyRules rds now s
               else getCachedRules rds now (companyId ctx) s") blast
  show ?thesis
  proof (cases loaded)
    case (Inl e)
    with ld show ?thesis
      by (simp add: classifyTransaction_def classifyTransaction_try_def unclassified_def)
  next
    case (Inr rules)
    with ld show ?thesis
      by (auto simp: classifyTransaction_def classifyTransaction_try_def unclassified_def
            Let_def split: option.splits)
  qed
qed

text \<open>
  With the failing Rule Store the \<open>try\<close> block raises and the caller receives the error
  result; a tenant without rules and a description without the keyword give the two
  other unclassified results.
\<close>

theorem classifyTransaction_never_throws_witness:
  "fst (classifyTransaction_try failingStore 1000
          (exContext ''com_1'' None (exTx ''starbucks'' 0 5500)) emptyState)
      = Inl (Error ''connection lost'')
   \<and> fst (classifyTransaction failingStore 1000
          (exContext ''com_1'' None (exTx ''starbucks'' 0 5500)) emptyState)
      = Inr (unclassified ''Classification error occurred'')
   \<and> fst (classifyTransaction exStore 1000
          (exContext ''com_2'' None (exTx ''starbucks'' 0 5500)) emptyState)
      = Inr (unclassified ''No active rules found for company'')
   \<and> fst (classifyTransaction exStore 1000
          (exContext ''com_1'' None (exTx ''bakery'' 0 5500)) emptyState)
      = Inr (unclassified ''No matching rules found'')"
  using classifyTransaction_never_throws
          [of failingStore 1000 "exContext ''com_1'' None (exTx ''starbucks'' 0 5500)" emptyState]
        classifyTransaction_never_throws
          [of exStore 1000 "exContext ''com_2'' None (exTx ''starbucks'' 0 5500)" emptyState]
  by (simp add: ex_defs engine_defs)

section \<open>Rule cache\<close>

lemma getCachedRules_hit:
  assumes "rulesCache s (''rules_'' @ cid) = Some cached"
    and "cacheExpiry s (''rules_'' @ cid) = Some expiry" and "0 \<le> now" and "now < expiry"
  shows "getCachedRules rds now cid s = (Inr cached, s)"
  using assms by (simp add: getCachedRules_def)

lemma getCachedRules_miss:
  assumes "rulesCache s (''rules_'' @ cid) = None \<or> cacheExpiry s (''rules_'' @ cid) = None
           \<or> (\<exists>expiry. cacheExpiry s (''rules_'' @ cid) = Some expiry \<and> expiry \<le> now)"
  shows "getCachedRules rds now cid s =
     (case getRulesByCompany rds cid of
        Inl e \<Rightarrow> (Inl e, s\<lparr>storeQueries := storeQueries s @ [RulesByCompany cid]\<rparr>)
      | Inr rules \<Rightarrow>
          (Inr rules,
           s\<lparr>storeQueries := storeQueries s @ [RulesByCompany cid],
             rulesCache := (rulesCache s)(''rules_'' @ cid \<mapsto> rules),
             cacheExpiry := (cacheExpiry s)(''rules_'' @ cid \<mapsto> now + CACHE_TTL)\<rparr>))"
  using assms by (auto simp: getCachedRules_def Let_def split: option.splits sum.splits)

lemma getCachedRules_queries:
  "storeQueries (snd (getCachedRules rds now cid s)) = storeQueries s
   \<or> storeQueries (snd (getCachedRules rds now cid s)) = storeQueries s @ [RulesByCompany cid]"
  by (auto simp: getCachedRules_def Let_def split: option.splits sum.splits)

lemma getCachedRules_twice:
  assumes "getCachedRules rds1 now1 cid s = (Inr rules1, s1)"
    and "0 \<le> now1" and "now1 \<le> now2" and "now2 < now1 + CACHE_TTL"
  shows "length (storeQueries (snd (getCachedRules rds2 now2 cid s1)))
           \<le> length (storeQueries s) + 1"
proof (cases "storeQueries s1 = storeQueries s")
  case True
  then show ?thesis
    using getCachedRules_queries [of rds2 now2 cid s1] by auto
next
  case False
  with assms(1) have c: "rulesCache s1 (''rules_'' @ cid) = Some rules1"
    and e: "cacheExpiry s1 (''rules_'' @ cid) = Some (now1 + CACHE_TTL)"
    and q: "storeQueries s1 = storeQueries s @ [RulesByCompany cid]"
    by (auto simp: getCachedRules_def Let_def split: option.splits sum.splits if_splits)
  have "getCachedRules rds2 now2 cid s1 = (Inr rules1, s1)"
    using c e assms(2-4) by (intro getCachedRules_hit) auto
  then show ?thesis using q by simp
qed

text \<open>
  C7. For every tenant, with clock readings that are not negative:
  an entry of the cache is returned, without a query to the Rule Store, exactly while
  \<open>now < expiresAt\<close>, and at \<open>now \<ge> expiresAt\<close> the Rule Store is queried;
  a call that finds no fresh entry and whose query succeeds returns the rules of the
  Rule Store and stores them with the expiry \<open>now\<close> plus 5 minutes;
  two calls that return within one window of 5 minutes send at most one query;
  after \<open>invalidateRulesCache\<close> the next call queries the Rule Store.
\<close>

theorem rule_cache_correct:
  "(rulesCache s (''rules_'' @ cid) = Some cached
      \<and> cacheExpiry s (''rules_'' @ cid) = Some expiry \<and> 0 \<le> now \<longrightarrow>
        (now < expiry \<longrightarrow> getCachedRules rds now cid s = (Inr cached, s))
      \<and> (\<not> now < expiry \<longrightarrow>
            storeQueries (snd (getCachedRules rds now cid s))
              = storeQueries s @ [RulesByCompany cid]))
   \<and> ((rulesCache s (''rules_'' @ cid) = None \<or> cacheExpiry s (''rules_'' @ cid) = None
        \<or> (\<exists>old. cacheExpiry s (''rules_'' @ cid) = Some old \<and> old \<le> now))
      \<and> getRulesByCompany rds cid = Inr rules \<longrightarrow>
        getCachedRules rds now cid s =
          (Inr rules,
           s\<lparr>storeQueries := storeQueries s @ [RulesByCompany cid],
             rulesCache := (rulesCache s)(''rules_'' @ cid \<mapsto> rules),
             cacheExpiry := (cacheExpiry s)(''rules_'' @ cid \<mapsto> now + 5 * 60 * 1000)\<rparr>))
   \<and> (getCachedRules rds now cid s = (Inr rules1, s1)
      \<and> 0 \<le> now \<and> now \<le> now2 \<and> now2 < now + 5 * 60 * 1000 \<longrightarrow>
        length (storeQueries (snd (getCachedRules rds2 now2 cid s1)))
          \<le> length (storeQueries s) + 1)
   \<and> storeQueries (snd (getCachedRules rds now cid (invalidateRulesCache cid s)))
        = storeQueries s @ [RulesByCompany cid]"
proof -
  have 1: "rulesCache s (''rules_'' @ cid) = Some cached
      \<and> cacheExpiry s (''rules_'' @ cid) = Some expiry \<and> 0 \<le> now \<longrightarrow>
        (now < expiry \<longrightarrow> getCachedRules rds now cid s = (Inr cached, s))
      \<and> (\<not> now < expiry \<longrightarrow>
            storeQueries (snd (getCachedRules rds now cid s))
              = storeQueries s @ [RulesByCompany cid])"
    by (auto simp: getCachedRules_def Let_def split: sum.splits)
  have 2: "(rulesCache s (''rules_'' @ cid) = None \<or> cacheExpiry s (''rules_'' @ cid) = None
        \<or> (\<exists>old. cacheExpiry s (''rules_'' @ cid) = Some old \<and> old \<le> now))
      \<and> getRulesByCompany rds cid = Inr rules \<longrightarrow>
        getCachedRules rds now cid s =
          (Inr rules,
           s\<lparr>storeQueries := storeQueries s @ [RulesByCompany cid],
             rulesCache := (rulesCache s)(''rules_'' @ cid \<mapsto> rules),
             cacheExpiry := (cacheExpiry s)(''rules_'' @ cid \<mapsto> now + 5 * 60 * 1000)\<rparr>)"
    using getCachedRules_miss [of s cid now rds] by (auto simp: CACHE_TTL_def)
  have 3: "getCachedRules rds now cid s = (Inr rules1, s1)
      \<and> 0 \<le> now \<and> now \<le> now2 \<and> now2 < now + 5 * 60 * 1000 \<longrightarrow>
        length (storeQueries (snd (getCachedRules rds2 now2 cid s1)))
          \<le> length (storeQueries s) + 1"
    using getCachedRules_twice [of rds now cid s rules1 s1 now2 rds2]
    by (simp add: CACHE_TTL_def)
  have 4: "storeQueries (snd (getCachedRules rds now cid (invalidateRulesCache cid s)))
        = storeQueries s @ [RulesByCompany cid]"
    by (simp add: getCachedRules_def invalidateRulesCache_def Let_def split: sum.splits)
  from 1 2 3 4 show ?thesis by blast
qed

lemma ex_first_call:
  "getCachedRules exStore 1000 ''com_1'' emptyState = (Inr [exRule], exCachedState)"
  by (simp add: getCachedRules_def exStore_def emptyState_def exCachedState_def CACHE_TTL_def
        Let_def)

text \<open>
  The rules of \<open>com_1\<close> are loaded at time 1000 and expire at 301000. A call at 300999
  sends no query, a call at 301000 sends the second query, and so does a call at 2000
  after the invalidation.
\<close>

theorem rule_cache_correct_witness:
  "getCachedRules exStore 1000 ''com_1'' emptyState = (Inr [exRule], exCachedState)
   \<and> getCachedRules failingStore 300999 ''com_1'' exCachedState = (Inr [exRule], exCachedState)
   \<and> storeQueries (snd (getCachedRules exStore 301000 ''com_1'' exCachedState))
       = [RulesByCompany ''com_1'', RulesByCompany ''com_1'']
   \<and> storeQueries (snd (getCachedRules exStore 2000 ''com_1''
                          (invalidateRulesCache ''com_1'' exCachedState)))
       = [RulesByCompany ''com_1'', RulesByCompany ''com_1'']"
  using rule_cache_correct
          [of emptyState "''com_1''" "[]" 0 1000 exStore "[exRule]" "[exRule]" exCachedState
              300999 failingStore]
        rule_cache_correct
          [of exCachedState "''com_1''" "[exRule]" 301000 300999 failingStore "[]" "[exRule]"
              exCachedState 300999 failingStore]
        rule_cache_correct
          [of exCachedState "''com_1''" "[exRule]" 301000 301000 exStore "[exRule]" "[exRule]"
              exCachedState 301000 exStore]
        rule_cache_correct
          [of exCachedState "''com_1''" "[exRule]" 301000 2000 exStore "[exRule]" "[exRule]"
              exCachedState 2000 exStore]
        ex_first_call
  by (simp add: exCachedState_def emptyState_def exStore_def)

section \<open>Batch classification\<close>

text \<open>
  C1, as stated, fails. An administrator who classifies a transaction of the tenant
  \<open>com_2\<close> with \<open>classifyTransaction\<close> gets the rules of all tenants (one query
  \<open>AllActiveRules\<close>) and a classified result through the rule of \<open>com_1\<close>. The batch for
  the same tenant and transaction has no privileged mode: it queries the rules of
  \<open>com_2\<close> and leaves the transaction unclassified.
\<close>

theorem batch_privileged_counterexample:
  "fst (classifyTransaction exStore 1000
          (exContext ''com_2'' (Some ''ADMIN'') (exTx ''Starbucks Gangnam'' 0 5500)) emptyState)
     = Inr (exClassified (Some ''com_1''))
   \<and> storeQueries (snd (classifyTransaction exStore 1000
          (exContext ''com_2'' (Some ''ADMIN'') (exTx ''Starbucks Gangnam'' 0 5500)) emptyState))
     = [AllActiveRules]
   \<and> fst (classifyTransactionsBatch exStore 1000 ''com_2'' [exTx ''Starbucks Gangnam'' 0 5500]
            emptyState)
     = Inr [unclassified ''No active rules found for company'']
   \<and> storeQueries (snd (classifyTransactionsBatch exStore 1000 ''com_2''
            [exTx ''Starbucks Gangnam'' 0 5500] emptyState))
     = [RulesByCompany ''com_2'']"
  by (simp add: ex_defs engine_defs)

lemma classifyInBatch_single:
  assumes "ut \<noteq> Some ''ADMIN''" and "getCachedRules rds now cid s = (Inr rules, s')"
    and "rules \<noteq> []"
  shows "classifyTransaction rds now \<lparr>companyId = cid, transactionData = td, userType = ut\<rparr> s
           = (Inr r, s'') \<Longrightarrow> classifyInBatch rules td = r\<lparr>actualCompanyId := None\<rparr> \<and> s'' = s'"
  using assms
  by (auto simp: classifyTransaction_def classifyTransaction_try_def classifyInBatch_def
        unclassified_def Let_def split: option.splits if_splits)

lemma unclassified_single:
  assumes "ut \<noteq> Some ''ADMIN''" and "getCachedRules rds now cid s = (Inr [], s')"
  shows "classifyTransaction rds now \<lparr>companyId = cid, transactionData = td, userType = ut\<rparr> s
           = (Inr r, s'') \<Longrightarrow>
         unclassified ''No active rules found for company'' = r\<lparr>actualCompanyId := None\<rparr>
         \<and> s'' = s'"
  using assms
  by (auto simp: classifyTransaction_def classifyTransaction_try_def
        unclassified_def Let_def split: option.splits if_splits)

text \<open>
  C1, amended. An empty batch returns the empty list and does not touch the cache. A
  non-empty batch loads the rule set once, with \<open>getCachedRules\<close> for the tenant (the
  policy of \<open>classifyTransaction\<close> for a caller who is not an administrator; the batch
  has no privileged mode): it sends no query to the Rule Store or the one query for the
  rules of the tenant, never the query for the rules of all tenants; an exception of the
  loading leaves the batch, and otherwise the engine ends in the state after that single
  loading and there is one result per transaction, computed from the loaded rule set
  and equal to the result that \<open>classifyTransaction\<close> gives for the transaction and a
  caller who is not an administrator, in the state and at the time of the batch, without
  the field \<open>actualCompanyId\<close>.
\<close>

theorem classifyTransactionsBatch_loads_once:
  "(txs = [] \<longrightarrow> classifyTransactionsBatch rds now cid txs s = (Inr [], s))
   \<and> (txs \<noteq> [] \<longrightarrow>
        length (storeQueries (snd (classifyTransactionsBatch rds now cid txs s)))
          \<le> length (storeQueries s) + 1
      \<and> (storeQueries (snd (classifyTransactionsBatch rds now cid txs s)) = storeQueries s
         \<or> storeQueries (snd (classifyTransactionsBatch rds now cid txs s))
             = storeQueries s @ [RulesByCompany cid])
      \<and> (\<forall>e s'. getCachedRules rds now cid s = (Inl e, s') \<longrightarrow>
             classifyTransactionsBatch rds now cid txs s = (Inl e, s'))
      \<and> (\<forall>rules s'. getCachedRules rds now cid s = (Inr rules, s') \<longrightarrow>
            (\<exists>results. classifyTransactionsBatch rds now cid txs s = (Inr results, s')
               \<and> length results = length txs
               \<and> results =
                   (if rules = []
                    then map (\<lambda>t. unclassified ''No active rules found for company'') txs
                    else map (classifyInBatch rules) txs)
               \<and> (\<forall>i<length txs. \<forall>ut r s''. ut \<noteq> Some ''ADMIN''
                     \<and> classifyTransaction rds now
                          \<lparr>companyId = cid, transactionData = txs ! i, userType = ut\<rparr> s
                         = (Inr r, s'')
                     \<longrightarrow> results ! i = r\<lparr>actualCompanyId := None\<rparr> \<and> s'' = s'))))"
proof -
  have a: "txs = [] \<longrightarrow> classifyTransactionsBatch rds now cid txs s = (Inr [], s)"
    by (simp add: classifyTransactionsBatch_def)
  have b: "snd (classifyTransactionsBatch rds now cid txs s) = snd (getCachedRules rds now cid s)"
    if "txs \<noteq> []"
    using that by (simp add: classifyTransactionsBatch_def split: prod.splits sum.splits)
  have c: "txs \<noteq> [] \<longrightarrow>
        length (storeQueries (snd (classifyTransactionsBatch rds now cid txs s)))
          \<le> length (storeQueries s) + 1"
    using getCachedRules_queries [of rds now cid s] b by auto
  have c': "txs \<noteq> [] \<longrightarrow>
        (storeQueries (snd (classifyTransactionsBatch rds now cid txs s)) = storeQueries s
         \<or> storeQueries (snd (classifyTransactionsBatch rds now cid txs s))
             = storeQueries s @ [RulesByCompany cid])"
    using getCachedRules_queries [of rds now cid s] b by auto
  have d: "txs \<noteq> [] \<longrightarrow> (\<forall>e s'. getCachedRules rds now cid s = (Inl e, s') \<longrightarrow>
             classifyTransactionsBatch rds now cid txs s = (Inl e, s'))"
    by (simp add: classifyTransactionsBatch_def)
  have e: "\<exists>results. classifyTransactionsBatch rds now cid txs s = (Inr results, s')
               \<and> length results = length txs
               \<and> results =
                   (if rules = []
                    then map (\<lambda>t. unclassified ''No active rules found for company'') txs
                    else map (classifyInBatch rules) txs)
               \<and> (\<forall>i<length txs. \<forall>ut r s''. ut \<noteq> Some ''ADMIN''
                     \<and> classifyTransaction rds now
                          \<lparr>companyId = cid, transactionData = txs ! i, userType = ut\<rparr> s
                         = (Inr r, s'')
                     \<longrightarrow> results ! i = r\<lparr>actualCompanyId := None\<rparr> \<and> s'' = s')"
    if ne: "txs \<noteq> []" and g: "getCachedRules rds now cid s = (Inr rules, s')" for rules s'
  proof (cases "rules = []")
    case True
    then show ?thesis
      using ne g unclassified_single [of _ rds now cid s s']
      by (simp add: classifyTransactionsBatch_def) blast
  next
    case False
    then show ?thesis
      using ne g classifyInBatch_single [of _ rds now cid s rules s']
      by (simp add: classifyTransactionsBatch_def) blast
  qed
  from a c c' d e show ?thesis by blast
qed

text \<open>
  A batch of two transactions of \<open>com_1\<close> sends one query; the first transaction is
  classified and the second is not.
\<close>

theorem classifyTransactionsBatch_loads_once_witness:
  "classifyTransactionsBatch exStore 1000 ''com_1''
      [exTx ''Starbucks Gangnam'' 0 5500, exTx ''bakery'' 0 3000] emptyState
     = (Inr [exClassified None, unclassified ''No matching rules found''], exCachedState)
   \<and> classifyTransaction exStore 1000
        (exContext ''com_1'' None (exTx ''Starbucks Gangnam'' 0 5500)) emptyState
     = (Inr (exClassified (Some ''com_1'')), exCachedState)"
  using classifyTransactionsBatch_loads_once
          [of "[exTx ''Starbucks Gangnam'' 0 5500, exTx ''bakery'' 0 3000]" exStore 1000
              "''com_1''" emptyState]
        ex_first_call
  by (simp add: ex_defs engine_defs)

section \<open>Statistics\<close>

lemma insertKey_keys: "set (map fst (insertKey obj k v)) = insert k (set (map fst obj))"
  by (induction obj k v rule: insertKey.induct) auto

lemma insertKey_distinct:
  "distinct (map fst obj) \<Longrightarrow> k \<notin> set (map fst obj) \<Longrightarrow> distinct (map fst (insertKey obj k v))"
proof (induction obj k v rule: insertKey.induct)
  case (1 k v)
  then show ?case by simp
next
  case (2 k' v' rest k v)
  then show ?case
    using insertKey_keys [of rest k v] by (auto simp del: insertKey.simps(2) simp: insertKey.simps(2))
qed

lemma insertKey_values: "snd ` set (insertKey obj k v) = insert v (snd ` set obj)"
  by (induction obj k v rule: insertKey.induct) auto

lemma insertKey_sum: "sumOfCounts (insertKey obj k v) = sumOfCounts obj + numberOf v"
  by (induction obj k v rule: insertKey.induct) (auto simp: sumOfCounts_def)

lemma replace_sum:
  assumes "distinct (map fst obj)" and "map_of obj k = Some old"
  shows "sumOfCounts (map (\<lambda>(k', v'). if k' = k then (k', v) else (k', v')) obj)
           = sumOfCounts obj - numberOf old + numberOf v"
  using assms
proof (induction obj)
  case Nil
  then show ?case by simp
next
  case (Cons a obj)
  obtain k' v' where a: "a = (k', v')" by (cases a) blast
  show ?case
  proof (cases "k' = k")
    case True
    with Cons.prems a have "k \<notin> set (map fst obj)" "v' = old" by auto
    then have "map (\<lambda>(k', v'). if k' = k then (k', v) else (k', v')) obj = obj"
      by (intro map_idI) force
    with True a \<open>v' = old\<close> show ?thesis by (simp add: sumOfCounts_def)
  next
    case False
    with Cons a show ?thesis by (simp add: sumOfCounts_def)
  qed
qed

text \<open>
  A category identifier is ordinary when it is not the name of a property of
  \<open>Object.prototype\<close>. While the identifiers are ordinary, the own properties are
  distinct keys with numbers, and each \<open>bumpCategory\<close> adds one to their sum.
\<close>

lemma bumpCategory_ordinary:
  assumes "cid \<notin> set (map fst objectPrototype)"
    and "distinct (map fst stats)" and "\<forall>v\<in>snd ` set stats. \<exists>n. v = JSNumber n"
  shows "distinct (map fst (bumpCategory stats cid))
       \<and> (\<forall>v\<in>snd ` set (bumpCategory stats cid). \<exists>n. v = JSNumber n)
       \<and> sumOfCounts (bumpCategory stats cid) = sumOfCounts stats + 1"
proof -
  from assms(1) have np: "cid \<noteq> ''__proto__''" and inh: "map_of objectPrototype cid = None"
    by (auto simp: objectPrototype_def map_of_eq_None_iff)
  show ?thesis
  proof (cases "map_of stats cid")
    case None
    then have nk: "cid \<notin> set (map fst stats)"
      by (simp add: map_of_eq_None_iff)
    with None inh np have eq: "bumpCategory stats cid = insertKey stats cid (JSNumber 1)"
      by (simp add: bumpCategory_def getProperty_def setProperty_def)
    show ?thesis
      unfolding eq
      using assms(2,3) nk insertKey_distinct [of stats cid "JSNumber 1"]
        insertKey_values [of stats cid "JSNumber 1"]
      by (auto simp: insertKey_sum numberOf_def)
  next
    case (Some old)
    then have mem: "(cid, old) \<in> set stats" by (rule map_of_SomeD)
    then obtain n where old: "old = JSNumber n"
      using assms(3) by force
    from mem have k: "cid \<in> set (map fst stats)" by force
    have "orZeroPlusOne old = JSNumber (n + 1)"
      by (simp add: old)
    with Some k np
    have eq: "bumpCategory stats cid
        = map (\<lambda>(k', v'). if k' = cid then (k', JSNumber (n + 1)) else (k', v')) stats"
      by (simp add: bumpCategory_def getProperty_def setProperty_def)
    have keys: "map fst (map (\<lambda>(k', v'). if k' = cid then (k', JSNumber (n + 1)) else (k', v')) stats)
        = map fst stats"
      by (induction stats) auto
    have vals: "\<forall>v\<in>snd ` set (map (\<lambda>(k', v'). if k' = cid then (k', JSNumber (n + 1))
                 else (k', v')) stats). \<exists>m. v = JSNumber m"
      using assms(3) by (auto split: if_splits)
    have dist: "distinct (map fst (map (\<lambda>(k', v'). if k' = cid then (k', JSNumber (n + 1))
                 else (k', v')) stats))"
      unfolding keys by (rule assms(2))
    have total: "sumOfCounts (map (\<lambda>(k', v'). if k' = cid then (k', JSNumber (n + 1))
                 else (k', v')) stats) = sumOfCounts stats + 1"
      using replace_sum [OF assms(2) Some, of "JSNumber (n + 1)"] old
      by (simp add: numberOf_def)
    from dist vals total show ?thesis
      unfolding eq by blast
  qed
qed

lemma countCategories_ordinary:
  assumes "\<forall>r\<in>set rs. \<forall>cid. categoryId r = Some cid \<longrightarrow> cid \<notin> set (map fst objectPrototype)"
    and "distinct (map fst stats)" and "\<forall>v\<in>snd ` set stats. \<exists>n. v = JSNumber n"
  shows "sumOfCounts (countCategories stats rs)
           = sumOfCounts stats + int (length (filter (\<lambda>r. truthy (categoryId r)) rs))"
  using assms
proof (induction stats rs rule: countCategories.induct)
  case (1 stats)
  then show ?case by simp
next
  case (2 stats r rs)
  show ?case
  proof (cases "categoryId r")
    case None
    with 2 show ?thesis by (simp add: truthy_def)
  next
    case (Some cid)
    show ?thesis
    proof (cases "cid = []")
      case True
      with Some 2 show ?thesis by (simp add: truthy_def)
    next
      case False
      from "2.prems"(1) Some have ord: "cid \<notin> set (map fst objectPrototype)" by simp
      note b = bumpCategory_ordinary [OF ord "2.prems"(2) "2.prems"(3)]
      from "2.IH"(2) [OF Some False] "2.prems"(1) b
      have "sumOfCounts (countCategories (bumpCategory stats cid) rs)
          = sumOfCounts (bumpCategory stats cid)
            + int (length (filter (\<lambda>r. truthy (categoryId r)) rs))"
        by simp
      with b Some False show ?thesis by (simp add: truthy_def)
    qed
  qed
qed

lemma generateClassificationStats_ordinary:
  assumes "\<forall>r\<in>set results. isClassified r \<longrightarrow>
             truthy (categoryId r)
             \<and> (\<forall>cid. categoryId r = Some cid \<longrightarrow> cid \<notin> set (map fst objectPrototype))"
  shows "sumOfCounts (categoryStats (generateClassificationStats results))
           = classifiedCount (generateClassificationStats results)
       \<and> classifiedCount (generateClassificationStats results)
           + unclassifiedCount (generateClassificationStats results)
           = totalCount (generateClassificationStats results)"
proof -
  from assms
  have "filter (\<lambda>r. truthy (categoryId r)) (filter isClassified results)
          = filter isClassified results"
    by (intro filter_True) simp
  moreover have "sumOfCounts (countCategories [] (filter isClassified results))
      = sumOfCounts [] + int (length (filter (\<lambda>r. truthy (categoryId r))
                                        (filter isClassified results)))"
    using assms by (intro countCategories_ordinary) auto
  ultimately show ?thesis
    by (simp add: generateClassificationStats_def Let_def sumOfCounts_def)
qed

text \<open>
  C8. The code diverges from the claim. The rule file may name a category
  \<open>constructor\<close>. A batch over such a rule classifies the transaction, and the
  statistics of its one result have \<open>classifiedCount = 1\<close>, but the entry of the category in
  \<open>categoryStats\<close> is the string \<open>function Object() { [native code] }1\<close>, not the count
  1: the counts per category do not sum to \<open>classifiedCount\<close>. The other equation,
  \<open>classifiedCount + unclassifiedCount = totalCount\<close>, holds there as everywhere, and
  two results in the ordinary category \<open>cat_1\<close> are counted as 2.
\<close>

theorem categoryStats_inherited_key:
  "fst (classifyTransactionsBatch ctorStore 1000 ''com_1'' [exTx ''Starbucks Gangnam'' 0 5500]
          emptyState)
     = Inr [(exClassified None)\<lparr>categoryId := Some ''constructor''\<rparr>]
   \<and> generateClassificationStats [(exClassified None)\<lparr>categoryId := Some ''constructor''\<rparr>]
     = \<lparr>totalCount = 1, classifiedCount = 1, unclassifiedCount = 0,
        categoryStats = [(''constructor'', JSString ''function Object() { [native code] }1'')]\<rparr>
   \<and> generateClassificationStats [exClassified None, exClassified None]
     = \<lparr>totalCount = 2, classifiedCount = 2, unclassifiedCount = 0,
        categoryStats = [(''cat_1'', JSNumber 2)]\<rparr>"
  by (simp add: ex_defs engine_defs stats_defs)

section \<open>Save-and-classify pipeline\<close>















end
